theory Spec2Isabelle
  imports
    Main
    "HOL-Library.Char_ord"
    "HOL-Library.List_Lexorder"
    "HOL-Library.Multiset"
begin

section \<open>The WordJam grid and word-state engine\<close>

text \<open>
  A shallow embedding of class \<open>WordJamGame\<close> (game logic) and class \<open>Dictionary\<close>
  (\<open>dictionary.js\<close>). Mutation of \<open>this\<close> is explicit state passing on the record
  \<open>game\<close>; the browser's \<open>localStorage\<close> is a field of that record. DOM rendering
  (\<open>renderGrid\<close>, \<open>updateUI\<close>, \<open>updateFoundWordsDisplay\<close>), the drag state arrays and
  console logging do not touch the fields modelled here and are left out.

  Strings are \<open>char list\<close>; a grid cell, a one-character string in the source, is a
  \<open>char\<close>, and the empty marker is the space character. The alphabet is ASCII: the words
  of the daily list are checked against \<open>/^[A-Za-z]+$/\<close> by \<open>validateWords\<close>, and
  \<open>toUpperCase\<close> maps \<open>a..z\<close> to \<open>A..Z\<close> and leaves every other character alone.
\<close>

subsection \<open>Strings\<close>

definition toUpperChar :: "char \<Rightarrow> char" where
  "toUpperChar c =
     (if CHR ''a'' \<le> c \<and> c \<le> CHR ''z'' then char_of (of_char c - (32::nat)) else c)"

definition toUpperCase :: "string \<Rightarrow> string" where
  "toUpperCase w = map toUpperChar w"

definition EMPTY :: char where
  "EMPTY = CHR '' ''"

subsection \<open>Game state\<close>

datatype message =
    NoMessage
  | NotAValidWord
  | NotAValidWordStop
  | FoundWord string
  | FindAtLeast nat
  | LevelFind nat nat

datatype kind = Info | Success | Error

text \<open>
  What a key of \<open>localStorage\<close> holds, at the level of the value its text denotes:
  the JSON text of an array of strings, the JSON text of an object whose fields
  \<open>levelWords\<close> and \<open>otherWords\<close> are arrays of strings or absent, the decimal text of
  a number, or a text that \<open>JSON.parse\<close> rejects. \<open>JSON.stringify\<close> and \<open>JSON.parse\<close> are
  the platform's and are not modelled beyond this.
\<close>

datatype stored =
    StoredArray "string list"
  | StoredObject "string list option" "string list option"
  | StoredNumber int
  | StoredMalformed

record game =
  lives :: int
  coins :: int
  currentLevelNumber :: nat
  currentWordLength :: nat
  wordsNeededForProgression :: nat
  foundWords :: "string list"
  foundWordsSet :: "string set"
  otherFoundWords :: "string list"
  otherFoundWordsSet :: "string set"
  totalWordsFoundInSession :: nat
  highscore :: nat
  resetCount :: nat
  letters :: "char list list"
  selectedColumnIndices :: "int list"
  currentLevelWords :: "string list"
  result :: message
  resultType :: kind
  location_href :: "string option"
  localStorage :: "string \<rightharpoonup> stored"

definition COINS_PER_WORD :: int where
  "COINS_PER_WORD = 10"

definition showResult :: "message \<Rightarrow> kind \<Rightarrow> game \<Rightarrow> game" where
  "showResult m k s = s\<lparr>result := m, resultType := k\<rparr>"

subsection \<open>Grid engine\<close>

text \<open>\<open>validateAndFixIndices\<close>: the \<open>while\<close> loop pushes zeros until there is an index
  for every row; the \<open>for\<close> loop rewrites each entry from its own old value.\<close>

definition fixIndex :: "char list list \<Rightarrow> nat \<Rightarrow> int \<Rightarrow> int" where
  "fixIndex ls row currentIndex =
     (if row \<ge> length ls then 0
      else if currentIndex < 0 then 0
      else if currentIndex \<ge> int (length (ls ! row))
        then max 0 (int (length (ls ! row)) - 1)
      else currentIndex)"

definition validateAndFixIndices :: "game \<Rightarrow> game" where
  "validateAndFixIndices s =
     (let pushed = selectedColumnIndices s
            @ replicate (length (letters s) - length (selectedColumnIndices s)) 0
      in s\<lparr>selectedColumnIndices :=
             map (\<lambda>row. fixIndex (letters s) row (pushed ! row)) [0..<length pushed]\<rparr>)"

text \<open>\<open>cleanUpGrid\<close>. The padding loop pushes one empty marker at a time.\<close>

function padRow :: "nat \<Rightarrow> char list \<Rightarrow> char list" where
  "padRow maxLength row =
     (if length row < maxLength then padRow maxLength (row @ [EMPTY]) else row)"
  by pat_completeness auto
termination
  by (relation "measure (\<lambda>(maxLength, row). maxLength - length row)") auto

declare padRow.simps [simp del]

definition maxRowLength :: "'a list list \<Rightarrow> nat" where
  \<comment> \<open>\<open>Math.max(...rows.map(row => row.length), 0)\<close>\<close>
  "maxRowLength rows = foldr max (map length rows) 0"

definition cleanUpGrid :: "game \<Rightarrow> game" where
  "cleanUpGrid s =
     (let compacted = map (filter (\<lambda>letter. letter \<noteq> EMPTY)) (letters s);
          kept = filter (\<lambda>row. length row > 0) compacted;
          maxLength = maxRowLength kept;
          padded = (if maxLength > 0 then map (padRow maxLength) kept else kept)
      in validateAndFixIndices (s\<lparr>letters := padded\<rparr>))"

text \<open>\<open>removeUsedLetters\<close> blanks the selected cell of every row that has one, then
  compacts.\<close>

definition markUsed :: "char list list \<Rightarrow> int list \<Rightarrow> char list list" where
  "markUsed ls sel =
     map (\<lambda>row.
            if row < length sel \<and> sel ! row \<ge> 0 \<and> sel ! row < int (length (ls ! row))
            then (ls ! row)[nat (sel ! row) := EMPTY]
            else ls ! row)
         [0..<length ls]"

definition removeUsedLetters :: "game \<Rightarrow> game" where
  "removeUsedLetters s =
     cleanUpGrid (s\<lparr>letters := markUsed (letters s) (selectedColumnIndices s)\<rparr>)"

definition advanceIndex :: "char list list \<Rightarrow> nat \<Rightarrow> int \<Rightarrow> int" where
  "advanceIndex ls row currentIndex =
     (if row < length ls \<and> currentIndex \<ge> int (length (ls ! row))
         \<and> max 0 (currentIndex - 1) < int (length (ls ! row))
      then max 0 (currentIndex - 1)
      else currentIndex)"

definition autoAdvanceSelection :: "game \<Rightarrow> game" where
  "autoAdvanceSelection s =
     validateAndFixIndices
       (s\<lparr>selectedColumnIndices :=
            map (\<lambda>row. advanceIndex (letters s) row (selectedColumnIndices s ! row))
                [0..<length (selectedColumnIndices s)]\<rparr>)"

definition isGridEmpty :: "game \<Rightarrow> bool" where
  "isGridEmpty s =
     (length (letters s) = 0 \<or> list_all (\<lambda>row. list_all (\<lambda>letter. letter = EMPTY) row) (letters s))"

definition selectedLetter :: "char list list \<Rightarrow> int list \<Rightarrow> nat \<Rightarrow> string" where
  "selectedLetter ls sel row =
     (if row < length ls \<and> sel ! row \<ge> 0 \<and> sel ! row < int (length (ls ! row))
         \<and> ls ! row ! nat (sel ! row) \<noteq> EMPTY
      then [ls ! row ! nat (sel ! row)]
      else [])"

definition buildWordFromSelection :: "game \<Rightarrow> string" where
  "buildWordFromSelection s =
     concat (map (selectedLetter (letters s) (selectedColumnIndices s))
                 [0..<length (selectedColumnIndices s)])"

definition initializeSelection :: "game \<Rightarrow> game" where
  "initializeSelection s =
     s\<lparr>selectedColumnIndices :=
         map (\<lambda>row. if length row > 0 then int (length row div 2) else 0) (letters s)\<rparr>"

subsection \<open>Dictionary\<close>

text \<open>
  \<open>wordsByLength\<close> is a \<open>Map\<close> from a length to a \<open>Set\<close> of words. A JavaScript
  \<open>Set\<close> iterates in insertion order (\<open>Array.from\<close> in \<open>wordsOfLength\<close>), so a bucket is
  the list of its members in insertion order, and \<open>add\<close> appends only a new member.
\<close>

record dictionary =
  wordsByLength :: "nat \<rightharpoonup> string list"
  loaded :: bool

definition Dictionary_new :: dictionary where
  "Dictionary_new = \<lparr>wordsByLength = Map.empty, loaded = False\<rparr>"

definition Set_add :: "'a \<Rightarrow> 'a list \<Rightarrow> 'a list" where
  "Set_add x xs = (if x \<in> set xs then xs else xs @ [x])"

definition indexWord :: "string \<Rightarrow> dictionary \<Rightarrow> dictionary" where
  \<comment> \<open>the body of the loop \<open>for (const word of words)\<close>\<close>
  "indexWord word d =
     (let len = length word;
          bucket = (case wordsByLength d len of None \<Rightarrow> [] | Some ws \<Rightarrow> ws)
      in d\<lparr>wordsByLength := (wordsByLength d)(len \<mapsto> Set_add word bucket)\<rparr>)"

definition fallbackWords :: "string list" where
  "fallbackWords =
     [''ANT'', ''BAT'', ''BEE'', ''CAN'', ''CAT'', ''COG'', ''COW'', ''DOG'', ''FLY'', ''FOX'',
      ''BEAR'', ''FROG'', ''LION'', ''WOLF'',
      ''EAGLE'', ''MOUSE'', ''SNAKE'', ''TIGER'',
      ''BASKET'', ''FRIEND'', ''LAPTOP'', ''MEMBER'',
      ''ELEPHANT'', ''GIRAFFE'', ''PENGUIN'', ''DOLPHIN'']"

definition loadFallbackWords :: "dictionary \<Rightarrow> dictionary" where
  "loadFallbackWords d = (fold indexWord fallbackWords d)\<lparr>loaded := True\<rparr>"

fun split_lines :: "string \<Rightarrow> string list" where
  \<comment> \<open>\<open>text.split('\n')\<close>\<close>
  "split_lines [] = [[]]"
| "split_lines (c # cs) =
     (if c = CHR 0x0A then [] # split_lines cs
      else (case split_lines cs of [] \<Rightarrow> [[c]] | l # ls \<Rightarrow> (c # l) # ls))"

definition isSpace :: "char \<Rightarrow> bool" where
  "isSpace c = (c \<in> {CHR 0x09, CHR 0x0A, CHR 0x0B, CHR 0x0C, CHR 0x0D, CHR '' ''})"

definition trim :: "string \<Rightarrow> string" where
  "trim w = rev (dropWhile isSpace (rev (dropWhile isSpace w)))"

text \<open>\<open>load\<close>: \<open>response\<close> is the text of \<open>dictionary.txt\<close>, or \<open>None\<close> when the fetch
  fails or answers with an error status (the \<open>catch\<close> branch).\<close>

definition load :: "string option \<Rightarrow> dictionary \<Rightarrow> dictionary" where
  "load response d =
     (if loaded d then d
      else case response of
        None \<Rightarrow> loadFallbackWords d
      | Some text \<Rightarrow>
          (let words = filter (\<lambda>word. length word > 0)
                         (map (\<lambda>word. toUpperCase (trim word)) (split_lines text))
           in (fold indexWord words d)\<lparr>loaded := True\<rparr>))"

definition wordsOfLength :: "dictionary \<Rightarrow> nat \<Rightarrow> string list" where
  "wordsOfLength d len = (case wordsByLength d len of None \<Rightarrow> [] | Some words \<Rightarrow> words)"

definition isValidWord :: "dictionary \<Rightarrow> string \<Rightarrow> bool" where
  "isValidWord d word =
     (if length word = 0 then False
      else let uppercaseWord = toUpperCase word
           in case wordsByLength d (length uppercaseWord) of
                None \<Rightarrow> False
              | Some words \<Rightarrow> uppercaseWord \<in> set words)"

subsection \<open>Found-word persistence\<close>

fun join :: "string list \<Rightarrow> string" where
  \<comment> \<open>\<open>join(',')\<close>\<close>
  "join [] = []"
| "join [w] = w"
| "join (w # ws) = w @ '','' @ join ws"

text \<open>\<open>Array.prototype.sort\<close> without a comparator orders strings by their code units,
  which is the lexicographic order on \<open>char list\<close>.\<close>

definition getFoundWordsStorageKey :: "game \<Rightarrow> string" where
  "getFoundWordsStorageKey s =
     (if length (currentLevelWords s) = 0 then ''wordjam_foundWords_default''
      else ''wordjam_foundWords_'' @ join (sort (currentLevelWords s)))"

definition isLevelWord :: "string list \<Rightarrow> string \<Rightarrow> bool" where
  \<comment> \<open>\<open>currentLevelWords.some(levelWord => levelWord.toUpperCase() === wordUpper)\<close>\<close>
  "isLevelWord levelWords wordUpper =
     list_ex (\<lambda>levelWord. toUpperCase levelWord = wordUpper) levelWords"

definition setFound :: "string list \<Rightarrow> string list \<Rightarrow> game \<Rightarrow> game" where
  "setFound levelFound otherFound s =
     s\<lparr>foundWords := levelFound, foundWordsSet := set levelFound,
       otherFoundWords := otherFound, otherFoundWordsSet := set otherFound\<rparr>"

definition loadFoundWords :: "game \<Rightarrow> game" where
  "loadFoundWords s =
     (case localStorage s (getFoundWordsStorageKey s) of
        None \<Rightarrow> setFound [] [] s
      | Some StoredMalformed \<Rightarrow> setFound [] [] s
      | Some (StoredArray data) \<Rightarrow>
          setFound (filter (\<lambda>word. isLevelWord (currentLevelWords s) (toUpperCase word)) data) [] s
      | Some (StoredObject levelWords otherWords) \<Rightarrow>
          (let loadedLevelWords = (case levelWords of None \<Rightarrow> [] | Some ws \<Rightarrow> ws);
               loadedOtherWords = (case otherWords of None \<Rightarrow> [] | Some ws \<Rightarrow> ws)
           in setFound
                (filter (\<lambda>word. isLevelWord (currentLevelWords s) (toUpperCase word))
                   loadedLevelWords)
                loadedOtherWords s)
      | Some (StoredNumber n) \<Rightarrow> setFound [] [] s)"

definition saveFoundWords :: "game \<Rightarrow> game" where
  "saveFoundWords s =
     s\<lparr>localStorage := (localStorage s)
         (getFoundWordsStorageKey s \<mapsto>
            StoredObject (Some (foundWords s)) (Some (otherFoundWords s)))\<rparr>"

definition saveHighscore :: "game \<Rightarrow> game" where
  "saveHighscore s =
     s\<lparr>localStorage := (localStorage s)(''wordjam_highscore'' \<mapsto> StoredNumber (int (highscore s)))\<rparr>"

subsection \<open>Level generation\<close>

text \<open>
  What a level draws from outside: \<open>todaysWords\<close> is what
  \<open>firebaseService.getTodaysWords()\<close> resolves to (\<open>None\<close> for \<open>null\<close>, for an undefined
  service and for a rejected promise); \<open>Math.random\<close> is a supply of naturals, and the
  draw \<open>Math.floor(Math.random() * (i + 1))\<close> at index \<open>i\<close> is the supplied natural modulo
  \<open>i + 1\<close>, so every index \<open>0..i\<close> can be drawn.
\<close>

record env =
  todaysWords :: "string list option"
  wordRandom :: "nat \<Rightarrow> nat"
  gridRandom :: "nat \<Rightarrow> nat \<Rightarrow> nat"

fun shuffleLoop :: "(nat \<Rightarrow> nat) \<Rightarrow> nat \<Rightarrow> 'a list \<Rightarrow> 'a list" where
  \<comment> \<open>\<open>for (let i = shuffled.length - 1; i > 0; i--)\<close>\<close>
  "shuffleLoop random 0 shuffled = shuffled"
| "shuffleLoop random (Suc i) shuffled =
     (let j = random (Suc i) mod (Suc i + 1)
      in shuffleLoop random i (shuffled[Suc i := shuffled ! j, j := shuffled ! Suc i]))"

definition shuffleArray :: "(nat \<Rightarrow> nat) \<Rightarrow> 'a list \<Rightarrow> 'a list" where
  "shuffleArray random array = shuffleLoop random (length array - 1) array"

text \<open>\<open>generateLettersGrid\<close> is only called with a nonempty word list (lemma
  \<open>generateNewLevel_words\<close> below); on an empty one the source's \<open>Math.max()\<close> is
  \<open>-Infinity\<close> and \<open>Array(-Infinity)\<close> throws.\<close>

definition generateLettersGrid :: "(nat \<Rightarrow> nat \<Rightarrow> nat) \<Rightarrow> string list \<Rightarrow> char list list" where
  "generateLettersGrid random validWords =
     (let maxLength = maxRowLength validWords;
          columns = length validWords;
          grid = map (\<lambda>letterIndex.
                   map (\<lambda>wordIndex.
                          if letterIndex < length (validWords ! wordIndex)
                          then toUpperChar (validWords ! wordIndex ! letterIndex)
                          else EMPTY)
                       [0..<columns])
                   [0..<maxLength]
      in map (\<lambda>row. shuffleArray (random row) (grid ! row)) [0..<maxLength])"

definition basicWords :: "string list" where
  "basicWords = [''CAT'', ''DOG'', ''BAT'', ''HAT'', ''MAT'']"

definition fallbackLevelWords :: "dictionary \<Rightarrow> (nat \<Rightarrow> nat) \<Rightarrow> string list" where
  "fallbackLevelWords d random =
     (let wordLength = 5; wordCount = 5;
          availableWords = wordsOfLength d wordLength
      in if length availableWords < wordCount then basicWords
         else take wordCount (shuffleArray random availableWords))"

definition generateNewLevel :: "dictionary \<Rightarrow> env \<Rightarrow> game \<Rightarrow> game" where
  "generateNewLevel d e s =
     (let words = (case todaysWords e of
                     None \<Rightarrow> fallbackLevelWords d (wordRandom e)
                   | Some ws \<Rightarrow> if length ws = 0 then fallbackLevelWords d (wordRandom e) else ws);
          levelWords = map toUpperCase words;
          s1 = s\<lparr>currentLevelWords := levelWords,
                 currentWordLength :=
                   (case levelWords of [] \<Rightarrow> 5 | w # _ \<Rightarrow> if w = [] then 5 else length w),
                 wordsNeededForProgression := length levelWords,
                 letters := generateLettersGrid (gridRandom e) levelWords\<rparr>;
          s2 = loadFoundWords (initializeSelection s1)
      in s2\<lparr>resetCount := 1\<rparr>)"

subsection \<open>Submission and progression\<close>

definition progressToNextLevel :: "dictionary \<Rightarrow> env \<Rightarrow> game \<Rightarrow> game" where
  "progressToNextLevel d e s =
     (if length (foundWords s) < wordsNeededForProgression s
      then showResult (FindAtLeast (wordsNeededForProgression s)) Info s
      else
        let s1 = (if totalWordsFoundInSession s > highscore s
                  then saveHighscore (s\<lparr>highscore := totalWordsFoundInSession s\<rparr>)
                  else s);
            s2 = generateNewLevel d e (s1\<lparr>currentLevelNumber := currentLevelNumber s1 + 1\<rparr>)
        in showResult (LevelFind (currentLevelNumber s2) (wordsNeededForProgression s2)) Info s2)"

definition recordWord :: "string \<Rightarrow> game \<Rightarrow> game" where
  \<comment> \<open>the \<open>if\<close> / \<open>else if\<close> that tracks a found word\<close>
  "recordWord wordUpper s =
     (let isLevel = isLevelWord (currentLevelWords s) wordUpper
      in if isLevel \<and> wordUpper \<notin> foundWordsSet s
         then saveFoundWords
                (s\<lparr>foundWords := foundWords s @ [wordUpper],
                   foundWordsSet := insert wordUpper (foundWordsSet s)\<rparr>)
         else if \<not> isLevel \<and> wordUpper \<notin> otherFoundWordsSet s
         then saveFoundWords
                (s\<lparr>otherFoundWords := otherFoundWords s @ [wordUpper],
                   otherFoundWordsSet := insert wordUpper (otherFoundWordsSet s)\<rparr>)
         else s)"

definition confirmWord :: "dictionary \<Rightarrow> env \<Rightarrow> game \<Rightarrow> game" where
  "confirmWord d e s =
     (let word = buildWordFromSelection s
      in if length word = 0 then showResult NotAValidWord Error s
         else
           let isValid = isValidWord d word;
               correctLength = (length word = currentWordLength s)
           in if isValid \<and> correctLength then
                let wordUpper = toUpperCase word;
                    s1 = recordWord wordUpper s;
                    s2 = s1\<lparr>totalWordsFoundInSession := totalWordsFoundInSession s1 + 1,
                           coins := coins s1 + COINS_PER_WORD\<rparr>;
                    s3 = removeUsedLetters s2
                in if length (foundWords s3) \<ge> wordsNeededForProgression s3
                   then s3\<lparr>localStorage := (localStorage s3)
                             (''completedWords'' \<mapsto> StoredArray (foundWords s3),
                              ''completedResetCount'' \<mapsto> StoredNumber (int (resetCount s3))),
                           location_href := Some ''completion.html''\<rparr>
                   else if isGridEmpty s3 then progressToNextLevel d e s3
                   else showResult (FoundWord (toUpperCase word)) Success
                          (autoAdvanceSelection s3)
              else showResult NotAValidWordStop Error s)"

subsection \<open>Predicates and sample states used in the statements\<close>

definition compactRows :: "char list list \<Rightarrow> char list list" where
  \<comment> \<open>the first two passes of \<open>cleanUpGrid\<close>: the letters of each row, rows without letters dropped\<close>
  "compactRows ls =
     filter (\<lambda>row. length row > 0) (map (filter (\<lambda>letter. letter \<noteq> EMPTY)) ls)"

definition selectionValid :: "game \<Rightarrow> bool" where
  "selectionValid s =
     (length (letters s) \<le> length (selectedColumnIndices s) \<and>
      (\<forall>row < length (selectedColumnIndices s).
         if row < length (letters s) \<and> letters s ! row \<noteq> []
         then 0 \<le> selectedColumnIndices s ! row
              \<and> selectedColumnIndices s ! row < int (length (letters s ! row))
         else selectedColumnIndices s ! row = 0))"

definition game_init :: game where
  \<comment> \<open>the fields as the constructor sets them, over an empty \<open>localStorage\<close>\<close>
  "game_init = \<lparr>lives = 3, coins = 0, currentLevelNumber = 1, currentWordLength = 5,
     wordsNeededForProgression = 5, foundWords = [], foundWordsSet = {},
     otherFoundWords = [], otherFoundWordsSet = {}, totalWordsFoundInSession = 0,
     highscore = 0, resetCount = 0, letters = [], selectedColumnIndices = [],
     currentLevelWords = [], result = NoMessage, resultType = Info,
     location_href = None, localStorage = Map.empty\<rparr>"

definition ragged_state :: game where
  "ragged_state = game_init\<lparr>letters := [''AB'', ''C''], selectedColumnIndices := [1, 1]\<rparr>"

definition holes_state :: game where
  "holes_state =
     game_init\<lparr>letters := [''A B'', ''   '', ''C  ''], selectedColumnIndices := [2, 1, 0]\<rparr>"

definition wild_state :: game where
  "wild_state =
     game_init\<lparr>letters := [''CAT'', ''DO'', []], selectedColumnIndices := [7, -2, 4, 9]\<rparr>"

definition env_ragged :: env where
  \<comment> \<open>a daily list with words of unequal length, as \<open>validateWords\<close> lets through\<close>
  "env_ragged = \<lparr>todaysWords = Some [''CAT'', ''DOG'', ''OWLS''],
     wordRandom = (\<lambda>i. 0), gridRandom = (\<lambda>row i. i)\<rparr>"

definition dict_pets :: dictionary where
  "dict_pets = load (Some (''cat'' @ [CHR 0x0A] @ ''dog'' @ [CHR 0x0A] @ ''owls'')) Dictionary_new"

definition letterCount :: "char list list \<Rightarrow> nat" where
  \<comment> \<open>the number of cells of a grid that hold a letter\<close>
  "letterCount ls = sum_list (map (\<lambda>row. length (filter (\<lambda>letter. letter \<noteq> EMPTY) row)) ls)"

definition foundInv :: "game \<Rightarrow> bool" where
  \<comment> \<open>the two sets mirror the two arrays, no array has a duplicate, the first array holds
     level words only and the second none\<close>
  "foundInv s =
     (foundWordsSet s = set (foundWords s)
      \<and> otherFoundWordsSet s = set (otherFoundWords s)
      \<and> distinct (foundWords s)
      \<and> distinct (otherFoundWords s)
      \<and> (\<forall>word \<in> set (foundWords s). isLevelWord (currentLevelWords s) word)
      \<and> (\<forall>word \<in> set (otherFoundWords s). \<not> isLevelWord (currentLevelWords s) word))"

definition bucketsOK :: "dictionary \<Rightarrow> bool" where
  \<comment> \<open>every bucket is duplicate-free and holds uppercase words of its own length\<close>
  "bucketsOK d =
     (\<forall>len words. wordsByLength d len = Some words \<longrightarrow>
        distinct words \<and> (\<forall>word \<in> set words. length word = len \<and> toUpperCase word = word))"

definition dictionary_txt :: string where
  "dictionary_txt = ''crane'' @ [CHR 0x0A] @ ''  plate '' @ [CHR 0x0A] @ ''axed'' @ [CHR 0x0A]
     @ [CHR 0x0A] @ ''GRAPE'' @ [CHR 0x0A] @ ''stone'' @ [CHR 0x0A] @ ''flame'' @ [CHR 0x0A]
     @ ''crate'' @ [CHR 0x0A] @ ''crane'' @ [CHR 0x0A]"

definition dict_sample :: dictionary where
  "dict_sample = load (Some dictionary_txt) Dictionary_new"

definition env_none :: env where
  "env_none = \<lparr>todaysWords = None, wordRandom = (\<lambda>i. 0), gridRandom = (\<lambda>row i. 0)\<rparr>"

definition env_daily :: env where
  \<comment> \<open>a daily list; the grid draws leave every row in place\<close>
  "env_daily = \<lparr>todaysWords = Some [''crane'', ''PLATE'', ''GRAPE'', ''STONE'', ''FLAME''],
     wordRandom = (\<lambda>i. 0), gridRandom = (\<lambda>row i. i)\<rparr>"

definition crane_state :: game where
  "crane_state = generateNewLevel dict_sample env_daily game_init"

definition crate_state :: game where
  "crate_state = crane_state\<lparr>selectedColumnIndices := [0, 0, 0, 1, 0]\<rparr>"

definition regrape_state :: game where
  \<comment> \<open>the level again after GRAPE was found and the grid was reset\<close>
  "regrape_state = crane_state\<lparr>foundWords := [''GRAPE''], foundWordsSet := {''GRAPE''}\<rparr>"

definition axed_state :: game where
  "axed_state =
     game_init\<lparr>letters := [''A'', ''X'', ''E'', ''D''], selectedColumnIndices := [0, 0, 0, 0]\<rparr>"

definition crane_level :: game where
  "crane_level =
     game_init\<lparr>currentLevelWords := [''CRANE'', ''PLATE'', ''GRAPE'', ''STONE'', ''FLAME''],
       foundWords := [''PLATE'', ''CRANE''], foundWordsSet := {''PLATE'', ''CRANE''},
       otherFoundWords := [''CRATE''], otherFoundWordsSet := {''CRATE''}\<rparr>"

definition crane_replay :: game where
  "crane_replay =
     game_init\<lparr>currentLevelWords := [''STONE'', ''FLAME'', ''CRANE'', ''PLATE'', ''GRAPE''],
       localStorage := localStorage (saveFoundWords crane_level)\<rparr>"

section \<open>Properties of the grid engine\<close>


lemma padRow_eq: "padRow m row = row @ replicate (m - length row) EMPTY"
proof (induction m row rule: padRow.induct)
  case (1 maxLength row)
  show ?case
  proof (cases "length row < maxLength")
    case True
    then have "padRow maxLength row = padRow maxLength (row @ [EMPTY])" by (subst padRow.simps) simp
    also have "\<dots> = (row @ [EMPTY]) @ replicate (maxLength - length (row @ [EMPTY])) EMPTY"
      using 1 True by simp
    also have "\<dots> = row @ replicate (maxLength - length row) EMPTY"
      using True by (simp add: replicate_append_same Suc_diff_Suc flip: replicate_Suc)
    finally show ?thesis .
  next
    case False
    then show ?thesis by (subst padRow.simps) simp
  qed
qed

lemma maxRowLength_ge: "row \<in> set rows \<Longrightarrow> length row \<le> maxRowLength rows"
  by (induction rows) (auto simp: maxRowLength_def)

lemma maxRowLength_le: "(\<And>row. row \<in> set rows \<Longrightarrow> length row \<le> n) \<Longrightarrow> maxRowLength rows \<le> n"
  by (induction rows) (auto simp: maxRowLength_def)

lemma letters_validateAndFixIndices [simp]: "letters (validateAndFixIndices s) = letters s"
  by (simp add: validateAndFixIndices_def Let_def)

lemma padRow_fun: "padRow m = (\<lambda>row. row @ replicate (m - length row) EMPTY)"
  by (rule ext) (rule padRow_eq)

lemma cleanUpGrid_alt:
  "cleanUpGrid s =
     validateAndFixIndices
       (s\<lparr>letters :=
            map (\<lambda>row. row @ replicate (maxRowLength (compactRows (letters s)) - length row) EMPTY)
                (compactRows (letters s))\<rparr>)"
  by (simp add: cleanUpGrid_def Let_def compactRows_def padRow_fun)

lemma letters_cleanUpGrid:
  "letters (cleanUpGrid s) =
     map (\<lambda>row. row @ replicate (maxRowLength (compactRows (letters s)) - length row) EMPTY)
         (compactRows (letters s))"
  by (auto simp: cleanUpGrid_def Let_def compactRows_def padRow_eq maxRowLength_def)

lemma compactRows_letter: "row \<in> set (compactRows ls) \<Longrightarrow> row \<noteq> [] \<and> EMPTY \<notin> set row"
  by (auto simp: compactRows_def)

lemma compactRows_padded:
  assumes "\<And>row. row \<in> set rows \<Longrightarrow> row \<noteq> [] \<and> EMPTY \<notin> set row"
  shows "compactRows (map (\<lambda>row. row @ replicate (f row) EMPTY) rows) = rows"
proof -
  have "filter (\<lambda>letter. letter \<noteq> EMPTY) (row @ replicate (f row) EMPTY) = row"
    if "row \<in> set rows" for row
    using assms [OF that] by (auto simp: filter_id_conv)
  then have "map (filter (\<lambda>letter. letter \<noteq> EMPTY)) (map (\<lambda>row. row @ replicate (f row) EMPTY) rows) = rows"
    by (simp add: map_idI)
  moreover have "filter (\<lambda>row. length row > 0) rows = rows"
    using assms by (auto simp: filter_id_conv)
  ultimately show ?thesis by (simp add: compactRows_def)
qed

lemma compactRows_cleanUpGrid: "compactRows (letters (cleanUpGrid s)) = compactRows (letters s)"
  unfolding letters_cleanUpGrid by (rule compactRows_padded) (rule compactRows_letter)

lemma fixIndex_idem: "fixIndex ls row (fixIndex ls row x) = fixIndex ls row x"
  by (auto simp: fixIndex_def)

lemma validateAndFixIndices_idem: "validateAndFixIndices (validateAndFixIndices s) = validateAndFixIndices s"
proof -
  define pushed where "pushed = selectedColumnIndices s
            @ replicate (length (letters s) - length (selectedColumnIndices s)) 0"
  define sel1 where "sel1 = map (\<lambda>row. fixIndex (letters s) row (pushed ! row)) [0..<length pushed]"
  have v: "validateAndFixIndices s = s\<lparr>selectedColumnIndices := sel1\<rparr>"
    by (simp add: validateAndFixIndices_def Let_def pushed_def sel1_def)
  have len: "length (letters s) - length sel1 = 0"
    by (simp add: sel1_def pushed_def)
  have "map (\<lambda>row. fixIndex (letters s) row (sel1 ! row)) [0..<length sel1] = sel1"
    by (rule nth_equalityI) (simp_all add: sel1_def fixIndex_idem)
  then show ?thesis
    unfolding v by (simp add: validateAndFixIndices_def Let_def len)
qed

text \<open>
  Claim C6. Compaction is idempotent: \<open>cleanUpGrid\<close> applied to the result of
  \<open>cleanUpGrid\<close> changes nothing, neither a cell of the grid nor a selection index nor
  any other field of the state.
\<close>

theorem cleanUpGrid_idempotent: "cleanUpGrid (cleanUpGrid s) = cleanUpGrid s"
proof -
  define L where "L ls = map (\<lambda>row. row @ replicate (maxRowLength (compactRows ls) - length row) EMPTY)
         (compactRows ls)" for ls
  have c: "cleanUpGrid t = validateAndFixIndices (t\<lparr>letters := L (letters t)\<rparr>)" for t
    by (simp add: cleanUpGrid_alt L_def)
  have l: "letters (cleanUpGrid t) = L (letters t)" for t
    by (simp add: c)
  have "L (letters (cleanUpGrid s)) = L (letters s)"
    by (simp add: L_def compactRows_cleanUpGrid)
  then have "cleanUpGrid (cleanUpGrid s) = validateAndFixIndices ((cleanUpGrid s)\<lparr>letters := letters (cleanUpGrid s)\<rparr>)"
    by (subst c) (simp add: l)
  also have "\<dots> = validateAndFixIndices (cleanUpGrid s)" by simp
  also have "\<dots> = cleanUpGrid s"
    unfolding c by (rule validateAndFixIndices_idem)
  finally show ?thesis .
qed

text \<open>
  Claim C2. After \<open>cleanUpGrid\<close>, whatever the grid was before, all rows have the same
  length, every row holds at least one letter (so no row is all empty markers, and a
  grid without letters has become the grid of zero rows), and in every row the empty
  markers are padding behind the letters.
\<close>

theorem cleanUpGrid_rectangular:
  "(\<forall>row1 \<in> set (letters (cleanUpGrid s)). \<forall>row2 \<in> set (letters (cleanUpGrid s)).
       length row1 = length row2)
   \<and> (\<forall>row \<in> set (letters (cleanUpGrid s)). \<exists>letter \<in> set row. letter \<noteq> EMPTY)
   \<and> (\<forall>row \<in> set (letters (cleanUpGrid s)).
        \<exists>n. row = filter (\<lambda>letter. letter \<noteq> EMPTY) row @ replicate n EMPTY)"
proof -
  let ?rows = "compactRows (letters s)"
  let ?m = "maxRowLength ?rows"
  have len: "length row = ?m" if "row \<in> set (letters (cleanUpGrid s))" for row
    using that maxRowLength_ge [of _ ?rows] by (auto simp: letters_cleanUpGrid)
  have letter: "\<exists>letter \<in> set row. letter \<noteq> EMPTY" if "row \<in> set (letters (cleanUpGrid s))" for row
  proof -
    from that obtain r where r: "r \<in> set ?rows" and row: "row = r @ replicate (?m - length r) EMPTY"
      by (auto simp: letters_cleanUpGrid)
    from compactRows_letter [OF r] obtain x where "x \<in> set r" "x \<noteq> EMPTY"
      by (cases r) auto
    then show ?thesis by (auto simp: row)
  qed
  have pad: "\<exists>n. row = filter (\<lambda>letter. letter \<noteq> EMPTY) row @ replicate n EMPTY"
    if "row \<in> set (letters (cleanUpGrid s))" for row
  proof -
    from that obtain r where r: "r \<in> set ?rows" and row: "row = r @ replicate (?m - length r) EMPTY"
      by (auto simp: letters_cleanUpGrid)
    have "filter (\<lambda>letter. letter \<noteq> EMPTY) row = r"
      using compactRows_letter [OF r] by (auto simp: row filter_id_conv)
    then show ?thesis using row by metis
  qed
  show ?thesis using len letter pad by metis
qed


lemma length_sel_validate:
  "length (selectedColumnIndices (validateAndFixIndices s))
     = max (length (selectedColumnIndices s)) (length (letters s))"
  by (simp add: validateAndFixIndices_def Let_def)

lemma nth_sel_validate:
  assumes "row < max (length (selectedColumnIndices s)) (length (letters s))"
  shows "selectedColumnIndices (validateAndFixIndices s) ! row
     = fixIndex (letters s) row
         (if row < length (selectedColumnIndices s) then selectedColumnIndices s ! row else 0)"
  using assms by (auto simp: validateAndFixIndices_def Let_def nth_append)

lemma fixIndex_range:
  "row < length ls \<Longrightarrow> ls ! row \<noteq> [] \<Longrightarrow>
     0 \<le> fixIndex ls row x \<and> fixIndex ls row x < int (length (ls ! row))"
  by (auto simp: fixIndex_def)

lemma fixIndex_zero:
  "\<not> (row < length ls \<and> ls ! row \<noteq> []) \<Longrightarrow> fixIndex ls row x = 0"
  by (auto simp: fixIndex_def)

lemma fixIndex_clamp:
  "row < length ls \<Longrightarrow> fixIndex ls row x = max 0 (min x (int (length (ls ! row)) - 1))"
  by (auto simp: fixIndex_def)

lemma selectionValid_validate: "selectionValid (validateAndFixIndices s)"
  unfolding selectionValid_def
  by (auto simp: length_sel_validate nth_sel_validate fixIndex_range fixIndex_zero
        simp del: max.absorb1 max.absorb2 max.absorb3 max.absorb4)

lemma selectionValid_autoAdvance: "selectionValid (autoAdvanceSelection s)"
  unfolding autoAdvanceSelection_def by (rule selectionValid_validate)

lemma selectionValid_cleanUpGrid: "selectionValid (cleanUpGrid s)"
  unfolding cleanUpGrid_alt by (rule selectionValid_validate)

text \<open>
  Claim C4. After \<open>validateAndFixIndices\<close>, and so after \<open>autoAdvanceSelection\<close> and
  \<open>cleanUpGrid\<close>, which end in it, there is a selection index for every row; the index
  of a row with cells lies in \<open>[0, rowLength - 1]\<close>, the index of an empty row and every
  index beyond the last row is \<open>0\<close>. An index that was negative or too large is clamped:
  the new index of a row is \<open>max 0 (min old (rowLength - 1))\<close>. The functions are total,
  so no input faults.
\<close>

theorem selection_validity:
  "selectionValid (validateAndFixIndices s)
   \<and> selectionValid (autoAdvanceSelection s)
   \<and> selectionValid (cleanUpGrid s)
   \<and> (\<forall>row < length (selectedColumnIndices s). row < length (letters s) \<longrightarrow>
        selectedColumnIndices (validateAndFixIndices s) ! row
          = max 0 (min (selectedColumnIndices s ! row) (int (length (letters s ! row)) - 1)))"
  by (simp add: selectionValid_validate selectionValid_autoAdvance selectionValid_cleanUpGrid
        nth_sel_validate fixIndex_clamp)

theorem selection_validity_witness:
  "selectionValid (validateAndFixIndices wild_state)
   \<and> selectedColumnIndices (validateAndFixIndices wild_state) = [2, 0, 0, 0]
   \<and> selectedColumnIndices (autoAdvanceSelection wild_state) = [2, 0, 0, 0]"
  using selection_validity [of wild_state]
  by (simp add: wild_state_def game_init_def validateAndFixIndices_def autoAdvanceSelection_def
        fixIndex_def advanceIndex_def upt_rec [of _ "numeral _"] nth_Cons')

text \<open>
  Claim C3 as stated fails. In the grid \<open>[AB, C]\<close> with selection \<open>[1, 1]\<close> the second
  row is padded to \<open>C\<close> and an empty marker; index \<open>1\<close> is within the padded row, so it is
  kept, and it points at the empty marker.
\<close>

theorem selection_on_padding_counterexample:
  "letters (validateAndFixIndices (cleanUpGrid ragged_state)) ! 1
     ! nat (selectedColumnIndices (validateAndFixIndices (cleanUpGrid ragged_state)) ! 1) = EMPTY"
  by (simp add: ragged_state_def game_init_def cleanUpGrid_def compactRows_def maxRowLength_def padRow_eq EMPTY_def
       validateAndFixIndices_def fixIndex_def upt_rec [of _ "numeral _"] nth_Cons' Let_def)


text \<open>
  The same situation arises in play. With the daily words CAT, DOG, OWLS the fourth
  row of the grid holds one letter; accepting DOG from the initial selection leaves
  that row as S and one padding cell, with the selection index \<open>1\<close> on the padding.
\<close>

lemma selection_on_padding_reachable:
  "letters (generateNewLevel dict_pets env_ragged game_init) = [''CDO'', ''AOW'', ''TGL'', ''  S'']"
  "buildWordFromSelection (generateNewLevel dict_pets env_ragged game_init) = ''DOG''"
  "letters (confirmWord dict_pets env_ragged (generateNewLevel dict_pets env_ragged game_init))
     = [''CO'', ''AW'', ''TL'', ''S '']"
  "selectedColumnIndices (confirmWord dict_pets env_ragged (generateNewLevel dict_pets env_ragged game_init))
     = [1, 1, 1, 1]"
  "result (confirmWord dict_pets env_ragged (generateNewLevel dict_pets env_ragged game_init))
     = FoundWord ''DOG''"
  by code_simp+

lemma cleanUpGrid_row:
  assumes "row < length (letters (cleanUpGrid s))"
  shows "\<exists>r n. letters (cleanUpGrid s) ! row = r @ replicate n EMPTY \<and> r \<noteq> [] \<and> EMPTY \<notin> set r"
proof -
  from assms have "letters (cleanUpGrid s) ! row \<in> set (letters (cleanUpGrid s))" by simp
  then obtain r where "r \<in> set (compactRows (letters s))"
    and "letters (cleanUpGrid s) ! row
           = r @ replicate (maxRowLength (compactRows (letters s)) - length r) EMPTY"
    unfolding letters_cleanUpGrid by auto
  with compactRows_letter [of r] show ?thesis by blast
qed

lemma padded_cell:
  assumes "EMPTY \<notin> set r" "i < length (r @ replicate n EMPTY)"
  shows "((r @ replicate n EMPTY) ! i \<noteq> EMPTY) = (i < length (filter (\<lambda>letter. letter \<noteq> EMPTY) (r @ replicate n EMPTY)))"
proof -
  have f: "filter (\<lambda>letter. letter \<noteq> EMPTY) (r @ replicate n EMPTY) = r"
    using assms(1) by (auto simp: filter_id_conv)
  show ?thesis
  proof (cases "i < length r")
    case True
    then have "r ! i \<in> set r" by simp
    with assms(1) have "r ! i \<noteq> EMPTY" by metis
    with True show ?thesis unfolding f by (simp add: nth_append)
  next
    case False
    with assms(2) show ?thesis unfolding f by (simp add: nth_append)
  qed
qed

lemma compaction_selection_cells:
  "\<forall>row < length (letters (cleanUpGrid s)).
      0 \<le> selectedColumnIndices (cleanUpGrid s) ! row
    \<and> selectedColumnIndices (cleanUpGrid s) ! row < int (length (letters (cleanUpGrid s) ! row))
    \<and> ((letters (cleanUpGrid s) ! row ! nat (selectedColumnIndices (cleanUpGrid s) ! row) \<noteq> EMPTY)
        = (nat (selectedColumnIndices (cleanUpGrid s) ! row)
             < length (filter (\<lambda>letter. letter \<noteq> EMPTY) (letters (cleanUpGrid s) ! row))))"
proof (intro allI impI)
  fix row assume row: "row < length (letters (cleanUpGrid s))"
  let ?t = "cleanUpGrid s"
  from cleanUpGrid_row [OF row] obtain r n
    where r: "letters ?t ! row = r @ replicate n EMPTY" "r \<noteq> []" "EMPTY \<notin> set r" by blast
  then have ne: "letters ?t ! row \<noteq> []" by simp
  have v: "selectionValid ?t" by (rule selectionValid_cleanUpGrid)
  from v row have "row < length (selectedColumnIndices ?t)" by (simp add: selectionValid_def)
  with v row ne have rng: "0 \<le> selectedColumnIndices ?t ! row"
      "selectedColumnIndices ?t ! row < int (length (letters ?t ! row))"
    unfolding selectionValid_def by metis+
  then have "nat (selectedColumnIndices ?t ! row) < length (r @ replicate n EMPTY)"
    by (simp add: r(1) nat_less_iff)
  from padded_cell [OF r(3) this] rng
  show "0 \<le> selectedColumnIndices ?t ! row
    \<and> selectedColumnIndices ?t ! row < int (length (letters ?t ! row))
    \<and> ((letters ?t ! row ! nat (selectedColumnIndices ?t ! row) \<noteq> EMPTY)
        = (nat (selectedColumnIndices ?t ! row)
             < length (filter (\<lambda>letter. letter \<noteq> EMPTY) (letters ?t ! row))))"
    by (simp add: r(1))
qed

lemma concat_selected:
  "concat (map (\<lambda>row. if g row \<noteq> EMPTY then [g row] else []) rows)
     = filter (\<lambda>letter. letter \<noteq> EMPTY) (map g rows)"
  by (induction rows) simp_all

lemma buildWord_cleanUpGrid:
  "buildWordFromSelection (cleanUpGrid s)
     = filter (\<lambda>letter. letter \<noteq> EMPTY)
         (map (\<lambda>row. letters (cleanUpGrid s) ! row
                       ! nat (selectedColumnIndices (cleanUpGrid s) ! row))
              [0..<length (letters (cleanUpGrid s))])"
proof -
  let ?t = "cleanUpGrid s"
  let ?ls = "letters ?t" and ?sel = "selectedColumnIndices ?t"
  let ?g = "\<lambda>row. ?ls ! row ! nat (?sel ! row)"
  have v: "selectionValid ?t" by (rule selectionValid_cleanUpGrid)
  then have len: "length ?ls \<le> length ?sel" by (simp add: selectionValid_def)
  have inside: "selectedLetter ?ls ?sel row = (if ?g row \<noteq> EMPTY then [?g row] else [])"
    if "row < length ?ls" for row
  proof -
    from cleanUpGrid_row [OF that] have ne: "?ls ! row \<noteq> []" by auto
    from that len have "row < length ?sel" by simp
    with v that ne have "0 \<le> ?sel ! row" "?sel ! row < int (length (?ls ! row))"
      unfolding selectionValid_def by metis+
    with that show ?thesis by (simp add: selectedLetter_def)
  qed
  have outside: "selectedLetter ?ls ?sel row = []" if "length ?ls \<le> row" for row
    using that by (simp add: selectedLetter_def)
  have split: "[0..<length ?sel] = [0..<length ?ls] @ [length ?ls..<length ?sel]"
    using len by (metis le_Suc_ex upt_add_eq_append zero_le)
  have "buildWordFromSelection ?t
      = concat (map (selectedLetter ?ls ?sel) [0..<length ?ls])
        @ concat (map (selectedLetter ?ls ?sel) [length ?ls..<length ?sel])"
    unfolding buildWordFromSelection_def by (subst split) simp
  also have "concat (map (selectedLetter ?ls ?sel) [length ?ls..<length ?sel]) = []"
    by (simp add: outside)
  also have "map (selectedLetter ?ls ?sel) [0..<length ?ls]
      = map (\<lambda>row. if ?g row \<noteq> EMPTY then [?g row] else []) [0..<length ?ls]"
    by (rule map_cong) (simp_all add: inside)
  finally show ?thesis by (simp add: concat_selected)
qed

text \<open>
  Claim C3, amended. After a compaction pass every row's selection index points at a
  cell of that row, padding included, and the selected cell holds a letter exactly when
  the index is smaller than the number of letters of the row; so it holds a letter
  whenever the row was not padded. A selected padding cell is skipped by
  \<open>buildWordFromSelection\<close>: the word built after the pass is the selected cells in row
  order, without the empty markers.
\<close>

theorem compaction_selection:
  "(\<forall>row < length (letters (cleanUpGrid s)).
      0 \<le> selectedColumnIndices (cleanUpGrid s) ! row
    \<and> selectedColumnIndices (cleanUpGrid s) ! row < int (length (letters (cleanUpGrid s) ! row))
    \<and> ((letters (cleanUpGrid s) ! row ! nat (selectedColumnIndices (cleanUpGrid s) ! row) \<noteq> EMPTY)
        = (nat (selectedColumnIndices (cleanUpGrid s) ! row)
             < length (filter (\<lambda>letter. letter \<noteq> EMPTY) (letters (cleanUpGrid s) ! row)))))
   \<and> buildWordFromSelection (cleanUpGrid s)
       = filter (\<lambda>letter. letter \<noteq> EMPTY)
           (map (\<lambda>row. letters (cleanUpGrid s) ! row
                         ! nat (selectedColumnIndices (cleanUpGrid s) ! row))
                [0..<length (letters (cleanUpGrid s))])"
  using compaction_selection_cells [of s] buildWord_cleanUpGrid [of s] by (rule conjI)

theorem compaction_selection_witness:
  "letters (cleanUpGrid ragged_state) = [''AB'', ''C '']
   \<and> selectedColumnIndices (cleanUpGrid ragged_state) = [1, 1]
   \<and> letters (cleanUpGrid ragged_state) ! 0 ! nat (selectedColumnIndices (cleanUpGrid ragged_state) ! 0) \<noteq> EMPTY
   \<and> letters (cleanUpGrid ragged_state) ! 1 ! nat (selectedColumnIndices (cleanUpGrid ragged_state) ! 1) = EMPTY
   \<and> buildWordFromSelection (cleanUpGrid ragged_state) = ''B''"
proof -
  have ev: "letters (cleanUpGrid ragged_state) = [''AB'', ''C '']"
    "selectedColumnIndices (cleanUpGrid ragged_state) = [1, 1]"
    "letters (cleanUpGrid ragged_state) ! 0 ! nat (selectedColumnIndices (cleanUpGrid ragged_state) ! 0) \<noteq> EMPTY"
    "letters (cleanUpGrid ragged_state) ! 1 ! nat (selectedColumnIndices (cleanUpGrid ragged_state) ! 1) = EMPTY"
    "buildWordFromSelection (cleanUpGrid ragged_state) = ''B''"
    by code_simp+
  from compaction_selection [of ragged_state] ev
  show ?thesis by simp
qed

theorem cleanUpGrid_rectangular_witness:
  "letters (cleanUpGrid holes_state) = [''AB'', ''C '']
   \<and> map length (letters (cleanUpGrid holes_state)) = [2, 2]"
  using cleanUpGrid_rectangular [of holes_state]
  by (simp add: holes_state_def game_init_def cleanUpGrid_def compactRows_def maxRowLength_def padRow_eq EMPTY_def
       validateAndFixIndices_def fixIndex_def upt_rec [of _ "numeral _"] nth_Cons' Let_def)

section \<open>Properties of the dictionary and of level generation\<close>

lemma toUpperChar_idem: "toUpperChar (toUpperChar c) = toUpperChar c"
proof (cases "CHR ''a'' \<le> c \<and> c \<le> CHR ''z''")
  case True
  then have r: "97 \<le> (of_char c :: nat)" "(of_char c :: nat) \<le> 122"
    by (simp_all add: less_eq_char_def)
  then have "(of_char c - 32 :: nat) mod 256 = of_char c - 32" by simp
  then have "(of_char (char_of (of_char c - (32::nat))) :: nat) = of_char c - 32"
    by (simp only: of_char_of)
  with r have "\<not> CHR ''a'' \<le> char_of (of_char c - (32::nat))"
    by (simp add: less_eq_char_def)
  then have "toUpperChar (char_of (of_char c - (32::nat))) = char_of (of_char c - (32::nat))"
    unfolding toUpperChar_def by (simp only: simp_thms if_False)
  moreover from True have "toUpperChar c = char_of (of_char c - (32::nat))"
    unfolding toUpperChar_def by (simp only: simp_thms if_True)
  ultimately show ?thesis by simp
next
  case False
  then have "toUpperChar c = c"
    unfolding toUpperChar_def by (simp only: simp_thms if_False)
  then show ?thesis by simp
qed

lemma toUpperCase_idem: "toUpperCase (toUpperCase w) = toUpperCase w"
  by (simp add: toUpperCase_def toUpperChar_idem)

lemma length_toUpperCase: "length (toUpperCase w) = length w"
  by (simp add: toUpperCase_def)

lemma fallbackWords_upper: "\<forall>w \<in> set fallbackWords. toUpperCase w = w"
  by (simp add: fallbackWords_def toUpperCase_def toUpperChar_def less_eq_char_def)


lemma mset_shuffleLoop: "i < length xs \<Longrightarrow> mset (shuffleLoop r i xs) = mset xs"
proof (induction i arbitrary: xs)
  case 0
  then show ?case by simp
next
  case (Suc i)
  let ?j = "r (Suc i) mod (Suc i + 1)"
  have "?j < Suc i + 1" by (rule mod_less_divisor) simp
  with Suc.prems have j: "?j < length xs" by linarith
  have "mset (xs[Suc i := xs ! ?j, ?j := xs ! Suc i]) = mset xs"
    using j Suc.prems by (rule mset_swap [of ?j xs "Suc i"])
  moreover have "i < length (xs[Suc i := xs ! ?j, ?j := xs ! Suc i])"
    using Suc.prems by simp
  ultimately show ?case
    using Suc.IH [of "xs[Suc i := xs ! ?j, ?j := xs ! Suc i]"] by (simp add: Let_def)
qed

lemma mset_shuffleArray: "mset (shuffleArray r xs) = mset xs"
  by (cases xs) (simp_all add: shuffleArray_def mset_shuffleLoop)


lemma bucketsOK_new: "bucketsOK Dictionary_new"
  by (simp add: bucketsOK_def Dictionary_new_def)

lemma distinct_Set_add: "distinct xs \<Longrightarrow> distinct (Set_add x xs)"
  by (simp add: Set_add_def)

lemma set_Set_add: "set (Set_add x xs) = insert x (set xs)"
  by (auto simp: Set_add_def)

lemma bucketsOK_indexWord:
  assumes "bucketsOK d" "toUpperCase word = word"
  shows "bucketsOK (indexWord word d)"
  unfolding bucketsOK_def
proof (intro allI impI)
  fix len words
  assume w: "wordsByLength (indexWord word d) len = Some words"
  define bucket where
    "bucket = (case wordsByLength d (length word) of None \<Rightarrow> [] | Some ws \<Rightarrow> ws)"
  have b: "distinct bucket" "\<forall>w \<in> set bucket. length w = length word \<and> toUpperCase w = w"
  proof -
    show "distinct bucket"
    proof (cases "wordsByLength d (length word)")
      case None
      then show ?thesis by (simp add: bucket_def)
    next
      case (Some ws)
      with assms(1) have "distinct ws" unfolding bucketsOK_def by blast
      with Some show ?thesis by (simp add: bucket_def)
    qed
    show "\<forall>w \<in> set bucket. length w = length word \<and> toUpperCase w = w"
    proof (cases "wordsByLength d (length word)")
      case None
      then show ?thesis by (simp add: bucket_def)
    next
      case (Some ws)
      with assms(1) have "\<forall>w \<in> set ws. length w = length word \<and> toUpperCase w = w"
        unfolding bucketsOK_def by blast
      with Some show ?thesis by (simp add: bucket_def)
    qed
  qed
  have upd: "wordsByLength (indexWord word d)
      = (wordsByLength d)(length word \<mapsto> Set_add word bucket)"
    by (simp add: indexWord_def Let_def bucket_def)
  show "distinct words \<and> (\<forall>word \<in> set words. length word = len \<and> toUpperCase word = word)"
  proof (cases "len = length word")
    case True
    with w upd have "words = Set_add word bucket" by simp
    with b assms(2) True show ?thesis
      by (simp add: distinct_Set_add set_Set_add)
  next
    case False
    with w upd have "wordsByLength d len = Some words" by simp
    with assms(1) show ?thesis unfolding bucketsOK_def by blast
  qed
qed

lemma bucketsOK_fold:
  "bucketsOK d \<Longrightarrow> \<forall>word \<in> set words. toUpperCase word = word \<Longrightarrow> bucketsOK (fold indexWord words d)"
  by (induction words arbitrary: d) (simp_all add: bucketsOK_indexWord)

lemma bucketsOK_loaded: "bucketsOK (d\<lparr>loaded := b\<rparr>) = bucketsOK d"
  by (simp add: bucketsOK_def)

lemma bucketsOK_load:
  assumes "bucketsOK d"
  shows "bucketsOK (load response d)"
proof (cases "loaded d")
  case True
  with assms show ?thesis by (simp add: load_def)
next
  case False
  show ?thesis
  proof (cases response)
    case None
    have "bucketsOK (fold indexWord fallbackWords d)"
      using assms fallbackWords_upper by (rule bucketsOK_fold)
    with False None show ?thesis
      by (simp add: load_def loadFallbackWords_def bucketsOK_loaded)
  next
    case (Some body)
    define words where "words = filter (\<lambda>word. length word > 0)
                         (map (\<lambda>word. toUpperCase (trim word)) (split_lines body))"
    have "\<forall>word \<in> set words. toUpperCase word = word"
      by (auto simp: words_def toUpperCase_idem)
    with assms have "bucketsOK (fold indexWord words d)" by (rule bucketsOK_fold)
    from this [unfolded words_def] False Some show ?thesis
      by (simp add: load_def Let_def bucketsOK_loaded)
  qed
qed

lemma wordsOfLength_ok:
  assumes "bucketsOK d"
  shows "distinct (wordsOfLength d len)"
    and "word \<in> set (wordsOfLength d len) \<Longrightarrow> length word = len \<and> toUpperCase word = word"
proof -
  have "distinct (wordsOfLength d len)
      \<and> (\<forall>word \<in> set (wordsOfLength d len). length word = len \<and> toUpperCase word = word)"
  proof (cases "wordsByLength d len")
    case None
    then show ?thesis by (simp add: wordsOfLength_def)
  next
    case (Some ws)
    with assms have "distinct ws \<and> (\<forall>word \<in> set ws. length word = len \<and> toUpperCase word = word)"
      unfolding bucketsOK_def by blast
    with Some show ?thesis by (simp add: wordsOfLength_def)
  qed
  then show "distinct (wordsOfLength d len)"
    and "word \<in> set (wordsOfLength d len) \<Longrightarrow> length word = len \<and> toUpperCase word = word"
    by blast+
qed

lemma currentLevelWords_setFound [simp]: "currentLevelWords (setFound f o' s) = currentLevelWords s"
  by (simp add: setFound_def)

lemma currentLevelWords_loadFoundWords [simp]:
  "currentLevelWords (loadFoundWords s) = currentLevelWords s"
  by (simp add: loadFoundWords_def Let_def split: option.splits stored.splits)

lemma currentLevelWords_generateNewLevel:
  "currentLevelWords (generateNewLevel d e s) =
     map toUpperCase
       (case todaysWords e of
          None \<Rightarrow> fallbackLevelWords d (wordRandom e)
        | Some ws \<Rightarrow> if length ws = 0 then fallbackLevelWords d (wordRandom e) else ws)"
  by (simp add: generateNewLevel_def Let_def initializeSelection_def)

text \<open>
  Claim C8. When the word source gives nothing (\<open>None\<close>, or an empty list), the level
  words of the new level are five words: if the dictionary, loaded from any response,
  holds at least five words of length 5, they are five different words of its length-5
  bucket, each of length 5 (a prefix of a permutation of the bucket, so drawn without
  replacement); otherwise they are the hard-coded list CAT, DOG, BAT, HAT, MAT.
\<close>

theorem fallback_level_words:
  assumes "todaysWords e = None \<or> todaysWords e = Some []"
    and "d = load response Dictionary_new"
  shows "length (currentLevelWords (generateNewLevel d e s)) = 5
     \<and> (if length (wordsOfLength d 5) < 5
         then currentLevelWords (generateNewLevel d e s) = basicWords
         else distinct (currentLevelWords (generateNewLevel d e s))
            \<and> set (currentLevelWords (generateNewLevel d e s)) \<subseteq> set (wordsOfLength d 5)
            \<and> (\<forall>word \<in> set (currentLevelWords (generateNewLevel d e s)). length word = 5))"
proof -
  have ok: "bucketsOK d" unfolding assms(2) by (rule bucketsOK_load) (rule bucketsOK_new)
  have basic: "map toUpperCase basicWords = basicWords"
    by (simp add: basicWords_def toUpperCase_def toUpperChar_def less_eq_char_def)
  have cur: "currentLevelWords (generateNewLevel d e s)
      = map toUpperCase (fallbackLevelWords d (wordRandom e))"
    using assms(1) by (auto simp: currentLevelWords_generateNewLevel)
  show ?thesis
  proof (cases "length (wordsOfLength d 5) < 5")
    case True
    then have "fallbackLevelWords d (wordRandom e) = basicWords"
      by (simp add: fallbackLevelWords_def Let_def)
    with True show ?thesis by (simp add: cur basic) (simp add: basicWords_def)
  next
    case False
    let ?sh = "shuffleArray (wordRandom e) (wordsOfLength d 5)"
    have fb: "fallbackLevelWords d (wordRandom e) = take 5 ?sh"
      using False by (simp add: fallbackLevelWords_def Let_def)
    have m: "mset ?sh = mset (wordsOfLength d 5)" by (rule mset_shuffleArray)
    then have set_sh: "set ?sh = set (wordsOfLength d 5)" by (rule mset_eq_setD)
    from m have len_sh: "length ?sh = length (wordsOfLength d 5)" by (rule mset_eq_length)
    from m have dist_sh: "distinct ?sh"
      using wordsOfLength_ok(1) [OF ok] mset_eq_imp_distinct_iff by blast
    have sub: "set (take 5 ?sh) \<subseteq> set (wordsOfLength d 5)"
      using set_take_subset [of 5 ?sh] set_sh by simp
    then have upper: "map toUpperCase (take 5 ?sh) = take 5 ?sh"
      using wordsOfLength_ok(2) [OF ok] by (intro map_idI) blast
    have "length (take 5 ?sh) = 5" using False len_sh by simp
    moreover have "distinct (take 5 ?sh)" using dist_sh by (rule distinct_take)
    moreover have "\<forall>word \<in> set (take 5 ?sh). length word = 5"
      using sub wordsOfLength_ok(2) [OF ok] by blast
    ultimately show ?thesis using False sub by (simp add: cur fb upper)
  qed
qed


theorem fallback_level_words_witness:
  "todaysWords env_none = None
   \<and> currentLevelWords (generateNewLevel (load None Dictionary_new) env_none game_init)
       = [''CAT'', ''DOG'', ''BAT'', ''HAT'', ''MAT'']
   \<and> currentLevelWords (generateNewLevel (load (Some dictionary_txt) Dictionary_new) env_none game_init)
       = [''PLATE'', ''GRAPE'', ''STONE'', ''FLAME'', ''CRATE'']"
proof -
  have ev: "todaysWords env_none = None"
    "currentLevelWords (generateNewLevel (load None Dictionary_new) env_none game_init)
       = [''CAT'', ''DOG'', ''BAT'', ''HAT'', ''MAT'']"
    "currentLevelWords (generateNewLevel (load (Some dictionary_txt) Dictionary_new) env_none game_init)
       = [''PLATE'', ''GRAPE'', ''STONE'', ''FLAME'', ''CRATE'']"
    by code_simp+
  from fallback_level_words [of env_none "load None Dictionary_new" None game_init]
    fallback_level_words [of env_none "load (Some dictionary_txt) Dictionary_new"
      "Some dictionary_txt" game_init]
    ev
  show ?thesis by simp
qed

section \<open>Properties of the found-word persistence\<close>

lemma sort_mset_cong: "mset xs = mset ys \<Longrightarrow> sort xs = sort (ys :: 'a::linorder list)"
  by (rule properties_for_sort) simp_all

lemma key_cong:
  assumes "mset (currentLevelWords t) = mset (currentLevelWords s)"
  shows "getFoundWordsStorageKey t = getFoundWordsStorageKey s"
proof -
  from assms have "length (currentLevelWords t) = length (currentLevelWords s)"
    by (rule mset_eq_length)
  moreover from assms have "sort (currentLevelWords t) = sort (currentLevelWords s)"
    by (rule sort_mset_cong)
  ultimately show ?thesis by (simp add: getFoundWordsStorageKey_def)
qed

text \<open>
  Claim C7. Saving the found words of a state \<open>s\<close> and loading them in a state \<open>t\<close> of
  the same level (its level words are those of \<open>s\<close>, in any order) over the saved
  storage gives the record back, both arrays and both sets, provided every level word
  of the record matches a level word of \<open>t\<close>. The storage key is the same for both:
  it is built from the sorted level words, so the order of the words does not matter.
\<close>

theorem persistence_roundtrip:
  assumes valid: "\<forall>word \<in> set (foundWords s). isLevelWord (currentLevelWords t) (toUpperCase word)"
    and same: "mset (currentLevelWords t) = mset (currentLevelWords s)"
    and store: "localStorage t = localStorage (saveFoundWords s)"
  shows "getFoundWordsStorageKey t = getFoundWordsStorageKey s
    \<and> foundWords (loadFoundWords t) = foundWords s
    \<and> otherFoundWords (loadFoundWords t) = otherFoundWords s
    \<and> foundWordsSet (loadFoundWords t) = set (foundWords s)
    \<and> otherFoundWordsSet (loadFoundWords t) = set (otherFoundWords s)"
proof -
  have key: "getFoundWordsStorageKey t = getFoundWordsStorageKey s"
    using same by (rule key_cong)
  have get: "localStorage t (getFoundWordsStorageKey t)
      = Some (StoredObject (Some (foundWords s)) (Some (otherFoundWords s)))"
    by (simp add: store key saveFoundWords_def)
  have keep: "filter (\<lambda>word. isLevelWord (currentLevelWords t) (toUpperCase word)) (foundWords s)
      = foundWords s"
    using valid by (simp add: filter_id_conv)
  have "loadFoundWords t = setFound (foundWords s) (otherFoundWords s) t"
    unfolding loadFoundWords_def get by (simp add: keep)
  with key show ?thesis by (simp add: setFound_def)
qed

theorem persistence_roundtrip_witness:
  "getFoundWordsStorageKey crane_replay = ''wordjam_foundWords_CRANE,FLAME,GRAPE,PLATE,STONE''
   \<and> foundWords (loadFoundWords crane_replay) = [''PLATE'', ''CRANE'']
   \<and> otherFoundWords (loadFoundWords crane_replay) = [''CRATE'']"
  using persistence_roundtrip [of crane_level crane_replay]
  by (simp add: crane_level_def crane_replay_def game_init_def getFoundWordsStorageKey_def
       isLevelWord_def toUpperCase_def less_eq_char_def less_char_def saveFoundWords_def)


section \<open>Properties of submission and progression\<close>

lemma letterCount_compactRows: "letterCount (compactRows ls) = letterCount ls"
  by (induction ls) (simp_all add: letterCount_def compactRows_def)

lemma letterCount_padded:
  "letterCount (map (\<lambda>row. row @ replicate (f row) EMPTY) rows) = letterCount rows"
  by (induction rows) (simp_all add: letterCount_def)

lemma letterCount_cleanUpGrid: "letterCount (letters (cleanUpGrid s)) = letterCount (letters s)"
  by (simp add: letters_cleanUpGrid letterCount_padded letterCount_compactRows)

lemma count_update:
  assumes "i < length row"
  shows "length (filter (\<lambda>letter. letter \<noteq> EMPTY) (row[i := EMPTY]))
           + (if row ! i \<noteq> EMPTY then 1 else 0)
         = length (filter (\<lambda>letter. letter \<noteq> EMPTY) row)"
proof -
  have "row = take i row @ row ! i # drop (Suc i) row"
    using assms by (rule id_take_nth_drop)
  then have "length (filter (\<lambda>letter. letter \<noteq> EMPTY) row)
      = length (filter (\<lambda>letter. letter \<noteq> EMPTY) (take i row @ row ! i # drop (Suc i) row))"
    by simp
  moreover have "row[i := EMPTY] = take i row @ EMPTY # drop (Suc i) row"
    using assms by (rule upd_conv_take_nth_drop)
  ultimately show ?thesis by simp
qed

lemma markUsed_row:
  assumes "row < length ls"
  shows "length (filter (\<lambda>letter. letter \<noteq> EMPTY) (markUsed ls sel ! row))
           + (if row < length sel then length (selectedLetter ls sel row) else 0)
         = length (filter (\<lambda>letter. letter \<noteq> EMPTY) (ls ! row))"
proof (cases "row < length sel \<and> sel ! row \<ge> 0 \<and> sel ! row < int (length (ls ! row))")
  case True
  then have i: "nat (sel ! row) < length (ls ! row)" by linarith
  from True assms have "markUsed ls sel ! row = (ls ! row)[nat (sel ! row) := EMPTY]"
    by (simp add: markUsed_def)
  moreover from True assms have "length (selectedLetter ls sel row)
      = (if ls ! row ! nat (sel ! row) \<noteq> EMPTY then 1 else 0)"
    by (simp add: selectedLetter_def)
  ultimately show ?thesis using count_update [OF i] True by simp
next
  case False
  with assms have "markUsed ls sel ! row = ls ! row"
    by (auto simp: markUsed_def)
  moreover from False have "row < length sel \<Longrightarrow> selectedLetter ls sel row = []"
    by (auto simp: selectedLetter_def)
  ultimately show ?thesis by simp
qed

lemma length_markUsed: "length (markUsed ls sel) = length ls"
  by (simp add: markUsed_def)

lemma letterCount_sum: "letterCount ls
    = (\<Sum>row < length ls. length (filter (\<lambda>letter. letter \<noteq> EMPTY) (ls ! row)))"
  by (simp add: letterCount_def sum_list_sum_nth atLeast0LessThan)

lemma length_word_sum:
  "length (concat (map (selectedLetter ls sel) [0..<n]))
     = (\<Sum>row < n. length (selectedLetter ls sel row))"
  by (simp add: length_concat o_def interv_sum_list_conv_sum_set_nat atLeast0LessThan)

lemma letterCount_markUsed:
  "letterCount (markUsed ls sel) + length (concat (map (selectedLetter ls sel) [0..<length sel]))
     = letterCount ls"
proof -
  let ?c = "\<lambda>row. length (selectedLetter ls sel row)"
  have out: "?c row = 0" if "row \<ge> length ls" for row
    using that by (simp add: selectedLetter_def)
  have "(\<Sum>row < length sel. ?c row) = (\<Sum>row \<in> {..<length sel} \<inter> {..<length ls}. ?c row)"
    by (rule sum.mono_neutral_right) (auto simp: selectedLetter_def split: if_splits)
  also have "\<dots> = (\<Sum>row < length ls. if row < length sel then ?c row else 0)"
  proof -
    have "{..<length sel} \<inter> {..<length ls} = {..<length ls} \<inter> {row. row < length sel}"
      by auto
    then show ?thesis by (simp add: sum.If_cases)
  qed
  finally have w: "(\<Sum>row < length sel. ?c row)
      = (\<Sum>row < length ls. if row < length sel then ?c row else 0)" .
  have "letterCount (markUsed ls sel) + (\<Sum>row < length sel. ?c row)
      = (\<Sum>row < length ls. length (filter (\<lambda>letter. letter \<noteq> EMPTY) (markUsed ls sel ! row))
            + (if row < length sel then ?c row else 0))"
    by (simp add: letterCount_sum length_markUsed w sum.distrib)
  also have "\<dots> = (\<Sum>row < length ls. length (filter (\<lambda>letter. letter \<noteq> EMPTY) (ls ! row)))"
    by (rule sum.cong) (simp_all add: markUsed_row)
  finally show ?thesis by (simp add: length_word_sum letterCount_sum)
qed

lemma letterCount_removeUsedLetters:
  "letterCount (letters (removeUsedLetters s)) + length (buildWordFromSelection s)
     = letterCount (letters s)"
  by (simp add: removeUsedLetters_def letterCount_cleanUpGrid buildWordFromSelection_def
        letterCount_markUsed)


lemma gridOnly_removeUsedLetters:
  "removeUsedLetters s = s\<lparr>letters := letters (removeUsedLetters s),
     selectedColumnIndices := selectedColumnIndices (removeUsedLetters s)\<rparr>"
  by (simp add: removeUsedLetters_def cleanUpGrid_def validateAndFixIndices_def Let_def)

lemma gridOnly_autoAdvanceSelection:
  "autoAdvanceSelection s = s\<lparr>selectedColumnIndices := selectedColumnIndices (autoAdvanceSelection s)\<rparr>"
  by (simp add: autoAdvanceSelection_def validateAndFixIndices_def Let_def)

lemma removeUsedLetters_cong:
  assumes "letters s = letters t" "selectedColumnIndices s = selectedColumnIndices t"
  shows "letters (removeUsedLetters s) = letters (removeUsedLetters t)"
  using assms by (simp add: removeUsedLetters_def cleanUpGrid_def Let_def)

lemma recordWord_grid:
  "letters (recordWord w s) = letters s"
  "selectedColumnIndices (recordWord w s) = selectedColumnIndices s"
  "coins (recordWord w s) = coins s"
  "totalWordsFoundInSession (recordWord w s) = totalWordsFoundInSession s"
  "currentLevelWords (recordWord w s) = currentLevelWords s"
  "wordsNeededForProgression (recordWord w s) = wordsNeededForProgression s"
  by (simp_all add: recordWord_def saveFoundWords_def Let_def)

lemma confirmWord_reject:
  assumes "\<not> (isValidWord d (buildWordFromSelection s)
            \<and> length (buildWordFromSelection s) = currentWordLength s)"
  shows "confirmWord d e s =
     showResult (if buildWordFromSelection s = [] then NotAValidWord else NotAValidWordStop) Error s"
  using assms by (auto simp: confirmWord_def Let_def)

lemma confirmWord_accept:
  assumes "isValidWord d (buildWordFromSelection s)"
    and "length (buildWordFromSelection s) = currentWordLength s"
  shows "coins (confirmWord d e s) = coins s + COINS_PER_WORD"
    and "totalWordsFoundInSession (confirmWord d e s) = totalWordsFoundInSession s + 1"
    and "letters (confirmWord d e s) = letters (removeUsedLetters s)"
    and "foundWords (confirmWord d e s)
           = foundWords (recordWord (toUpperCase (buildWordFromSelection s)) s)"
    and "otherFoundWords (confirmWord d e s)
           = otherFoundWords (recordWord (toUpperCase (buildWordFromSelection s)) s)"
    and "foundWordsSet (confirmWord d e s)
           = foundWordsSet (recordWord (toUpperCase (buildWordFromSelection s)) s)"
    and "otherFoundWordsSet (confirmWord d e s)
           = otherFoundWordsSet (recordWord (toUpperCase (buildWordFromSelection s)) s)"
    and "currentLevelWords (confirmWord d e s) = currentLevelWords s"
proof -
  define word where "word = buildWordFromSelection s"
  define s1 where "s1 = recordWord (toUpperCase word) s"
  define s2 where "s2 = s1\<lparr>totalWordsFoundInSession := totalWordsFoundInSession s1 + 1,
                           coins := coins s1 + COINS_PER_WORD\<rparr>"
  define s3 where "s3 = removeUsedLetters s2"
  define s4 where "s4 = autoAdvanceSelection s3"
  have ne: "buildWordFromSelection s \<noteq> []"
    using assms(1) by (auto simp: isValidWord_def)
  then have "0 < length (buildWordFromSelection s)" by simp
  then have ne2: "0 < currentWordLength s" by (simp only: assms(2))
  have f3: "s3 = s2\<lparr>letters := letters s3, selectedColumnIndices := selectedColumnIndices s3\<rparr>"
    unfolding s3_def by (rule gridOnly_removeUsedLetters)
  have f4: "s4 = s3\<lparr>selectedColumnIndices := selectedColumnIndices s4\<rparr>"
    unfolding s4_def by (rule gridOnly_autoAdvanceSelection)
  have l3: "letters s3 = letters (removeUsedLetters s)"
    unfolding s3_def by (rule removeUsedLetters_cong) (simp_all add: s2_def s1_def recordWord_grid)
  have c: "confirmWord d e s =
      (if length (foundWords s3) \<ge> wordsNeededForProgression s3
       then s3\<lparr>localStorage := (localStorage s3)
                 (''completedWords'' \<mapsto> StoredArray (foundWords s3),
                  ''completedResetCount'' \<mapsto> StoredNumber (int (resetCount s3))),
               location_href := Some ''completion.html''\<rparr>
       else if isGridEmpty s3
       then showResult (FindAtLeast (wordsNeededForProgression s3)) Info s3
       else showResult (FoundWord (toUpperCase word)) Success s4)"
    using assms ne ne2 unfolding s4_def s3_def s2_def s1_def word_def
    by (simp add: confirmWord_def Let_def progressToNextLevel_def)
  have fields3:
    "coins s3 = coins s + COINS_PER_WORD"
    "totalWordsFoundInSession s3 = totalWordsFoundInSession s + 1"
    "foundWords s3 = foundWords s1" "otherFoundWords s3 = otherFoundWords s1"
    "foundWordsSet s3 = foundWordsSet s1" "otherFoundWordsSet s3 = otherFoundWordsSet s1"
    "currentLevelWords s3 = currentLevelWords s"
    by (subst f3, simp add: s2_def s1_def recordWord_grid)+
  have fields4:
    "coins s4 = coins s3" "totalWordsFoundInSession s4 = totalWordsFoundInSession s3"
    "foundWords s4 = foundWords s3" "otherFoundWords s4 = otherFoundWords s3"
    "foundWordsSet s4 = foundWordsSet s3" "otherFoundWordsSet s4 = otherFoundWordsSet s3"
    "currentLevelWords s4 = currentLevelWords s3" "letters s4 = letters s3"
    by (subst f4, simp)+
  show "coins (confirmWord d e s) = coins s + COINS_PER_WORD"
    by (simp add: c showResult_def fields3 fields4)
  show "totalWordsFoundInSession (confirmWord d e s) = totalWordsFoundInSession s + 1"
    by (simp add: c showResult_def fields3 fields4)
  show "letters (confirmWord d e s) = letters (removeUsedLetters s)"
    by (simp add: c showResult_def fields3 fields4 l3)
  show "foundWords (confirmWord d e s)
           = foundWords (recordWord (toUpperCase (buildWordFromSelection s)) s)"
    by (simp add: c showResult_def fields3 fields4 s1_def word_def)
  show "otherFoundWords (confirmWord d e s)
           = otherFoundWords (recordWord (toUpperCase (buildWordFromSelection s)) s)"
    by (simp add: c showResult_def fields3 fields4 s1_def word_def)
  show "foundWordsSet (confirmWord d e s)
           = foundWordsSet (recordWord (toUpperCase (buildWordFromSelection s)) s)"
    by (simp add: c showResult_def fields3 fields4 s1_def word_def)
  show "otherFoundWordsSet (confirmWord d e s)
           = otherFoundWordsSet (recordWord (toUpperCase (buildWordFromSelection s)) s)"
    by (simp add: c showResult_def fields3 fields4 s1_def word_def)
  show "currentLevelWords (confirmWord d e s) = currentLevelWords s"
    by (simp add: c showResult_def fields3 fields4)
qed


lemma recordWord_found:
  "foundWords (recordWord w s) =
     (if isLevelWord (currentLevelWords s) w \<and> w \<notin> foundWordsSet s
      then foundWords s @ [w] else foundWords s)"
  "foundWordsSet (recordWord w s) =
     (if isLevelWord (currentLevelWords s) w \<and> w \<notin> foundWordsSet s
      then insert w (foundWordsSet s) else foundWordsSet s)"
  "otherFoundWords (recordWord w s) =
     (if \<not> isLevelWord (currentLevelWords s) w \<and> w \<notin> otherFoundWordsSet s
      then otherFoundWords s @ [w] else otherFoundWords s)"
  "otherFoundWordsSet (recordWord w s) =
     (if \<not> isLevelWord (currentLevelWords s) w \<and> w \<notin> otherFoundWordsSet s
      then insert w (otherFoundWordsSet s) else otherFoundWordsSet s)"
  by (simp_all add: recordWord_def saveFoundWords_def Let_def)



text \<open>
  Claim C9. While fewer level words are found than \<open>wordsNeededForProgression\<close>,
  \<open>progressToNextLevel\<close> only shows the informational message: the level number, the
  grid, the selection, the found words and the storage stay as they were. The required
  count is the number of level words: \<open>generateNewLevel\<close> sets it so.
\<close>

theorem progression_gate:
  "(length (foundWords s) < wordsNeededForProgression s \<longrightarrow>
      progressToNextLevel d e s = showResult (FindAtLeast (wordsNeededForProgression s)) Info s
      \<and> resultType (progressToNextLevel d e s) = Info
      \<and> currentLevelNumber (progressToNextLevel d e s) = currentLevelNumber s
      \<and> letters (progressToNextLevel d e s) = letters s
      \<and> selectedColumnIndices (progressToNextLevel d e s) = selectedColumnIndices s
      \<and> foundWords (progressToNextLevel d e s) = foundWords s
      \<and> foundWordsSet (progressToNextLevel d e s) = foundWordsSet s
      \<and> otherFoundWords (progressToNextLevel d e s) = otherFoundWords s
      \<and> otherFoundWordsSet (progressToNextLevel d e s) = otherFoundWordsSet s
      \<and> localStorage (progressToNextLevel d e s) = localStorage s)
   \<and> wordsNeededForProgression (generateNewLevel d e s)
       = length (currentLevelWords (generateNewLevel d e s))"
proof -
  have "wordsNeededForProgression (generateNewLevel d e s)
       = length (currentLevelWords (generateNewLevel d e s))"
    by (simp add: generateNewLevel_def Let_def loadFoundWords_def setFound_def
          initializeSelection_def split: option.splits stored.splits)
  then show ?thesis
    by (simp add: progressToNextLevel_def showResult_def)
qed

theorem progression_gate_witness:
  "length (foundWords crane_state) < wordsNeededForProgression crane_state
   \<and> wordsNeededForProgression crane_state = 5
   \<and> result (progressToNextLevel dict_sample env_daily crane_state) = FindAtLeast 5
   \<and> currentLevelNumber (progressToNextLevel dict_sample env_daily crane_state) = 1"
proof -
  have ev: "length (foundWords crane_state) < wordsNeededForProgression crane_state"
    "wordsNeededForProgression crane_state = 5"
    "result (progressToNextLevel dict_sample env_daily crane_state) = FindAtLeast 5"
    "currentLevelNumber (progressToNextLevel dict_sample env_daily crane_state) = 1"
    by code_simp+
  from progression_gate [of crane_state dict_sample env_daily] ev
  show ?thesis by simp
qed

text \<open>
  Claim C1. Let \<open>w\<close> be the word built from the selection, in a state whose two sets
  mirror the two arrays. If \<open>w\<close> is in the dictionary and its length is the level's word
  length, \<open>confirmWord\<close> accepts it: afterwards the uppercase word is in one of the two
  found arrays, the coins have grown by \<open>COINS_PER_WORD\<close>, the session counter by one,
  and the grid is the one \<open>removeUsedLetters\<close> leaves, with as many letters fewer as \<open>w\<close>
  is long. Otherwise, also for a dictionary word of the wrong length, the state is
  unchanged but for the error message. The session counter grows exactly in the first
  case.
\<close>

theorem confirmWord_accepts_iff:
  assumes "foundWordsSet s = set (foundWords s)"
    and "otherFoundWordsSet s = set (otherFoundWords s)"
  shows "(if isValidWord d (buildWordFromSelection s)
             \<and> length (buildWordFromSelection s) = currentWordLength s
          then toUpperCase (buildWordFromSelection s)
                 \<in> set (foundWords (confirmWord d e s)) \<union> set (otherFoundWords (confirmWord d e s))
             \<and> coins (confirmWord d e s) = coins s + COINS_PER_WORD
             \<and> totalWordsFoundInSession (confirmWord d e s) = totalWordsFoundInSession s + 1
             \<and> letters (confirmWord d e s) = letters (removeUsedLetters s)
             \<and> letterCount (letters (confirmWord d e s)) + length (buildWordFromSelection s)
                 = letterCount (letters s)
          else confirmWord d e s =
                 showResult (if buildWordFromSelection s = [] then NotAValidWord
                             else NotAValidWordStop) Error s)
     \<and> ((totalWordsFoundInSession (confirmWord d e s) = totalWordsFoundInSession s + 1)
          = (isValidWord d (buildWordFromSelection s)
             \<and> length (buildWordFromSelection s) = currentWordLength s))"
proof (cases "isValidWord d (buildWordFromSelection s)
             \<and> length (buildWordFromSelection s) = currentWordLength s")
  case True
  then have v: "isValidWord d (buildWordFromSelection s)"
    and l: "length (buildWordFromSelection s) = currentWordLength s" by simp_all
  have "toUpperCase (buildWordFromSelection s)
      \<in> set (foundWords (confirmWord d e s)) \<union> set (otherFoundWords (confirmWord d e s))"
    unfolding confirmWord_accept(4,5) [OF v l] recordWord_found using assms by simp
  moreover have "letterCount (letters (confirmWord d e s)) + length (buildWordFromSelection s)
                 = letterCount (letters s)"
    unfolding confirmWord_accept(3) [OF v l] by (rule letterCount_removeUsedLetters)
  ultimately show ?thesis using True
    by (simp only: confirmWord_accept(1,2,3) [OF v l] if_True simp_thms)
next
  case False
  from confirmWord_reject [OF False] False show ?thesis
    by (simp add: showResult_def)
qed

theorem confirmWord_accepts_iff_witness:
  "foundWordsSet crane_state = set (foundWords crane_state)
   \<and> otherFoundWordsSet crane_state = set (otherFoundWords crane_state)
   \<and> buildWordFromSelection crane_state = ''GRAPE''
   \<and> foundWords (confirmWord dict_sample env_daily crane_state) = [''GRAPE'']
   \<and> coins (confirmWord dict_sample env_daily crane_state) = 10
   \<and> letters (confirmWord dict_sample env_daily crane_state)
       = [''CPSF'', ''RLTL'', ''AAOA'', ''NTNM'', ''EEEE'']
   \<and> foundWordsSet axed_state = set (foundWords axed_state)
   \<and> otherFoundWordsSet axed_state = set (otherFoundWords axed_state)
   \<and> buildWordFromSelection axed_state = ''AXED''
   \<and> isValidWord dict_sample ''AXED''
   \<and> currentWordLength axed_state = 5
   \<and> result (confirmWord dict_sample env_daily axed_state) = NotAValidWordStop
   \<and> foundWords (confirmWord dict_sample env_daily axed_state) = []
   \<and> otherFoundWords (confirmWord dict_sample env_daily axed_state) = []
   \<and> coins (confirmWord dict_sample env_daily axed_state) = 0"
proof -
  have ev: "foundWordsSet crane_state = set (foundWords crane_state)"
    "otherFoundWordsSet crane_state = set (otherFoundWords crane_state)"
    "buildWordFromSelection crane_state = ''GRAPE''"
    "foundWords (confirmWord dict_sample env_daily crane_state) = [''GRAPE'']"
    "coins (confirmWord dict_sample env_daily crane_state) = 10"
    "letters (confirmWord dict_sample env_daily crane_state)
       = [''CPSF'', ''RLTL'', ''AAOA'', ''NTNM'', ''EEEE'']"
    "foundWordsSet axed_state = set (foundWords axed_state)"
    "otherFoundWordsSet axed_state = set (otherFoundWords axed_state)"
    "buildWordFromSelection axed_state = ''AXED''"
    "isValidWord dict_sample ''AXED''"
    "currentWordLength axed_state = 5"
    "result (confirmWord dict_sample env_daily axed_state) = NotAValidWordStop"
    "foundWords (confirmWord dict_sample env_daily axed_state) = []"
    "otherFoundWords (confirmWord dict_sample env_daily axed_state) = []"
    "coins (confirmWord dict_sample env_daily axed_state) = 0"
    by code_simp+
  from confirmWord_accepts_iff [of crane_state dict_sample env_daily]
    confirmWord_accepts_iff [of axed_state dict_sample env_daily] ev
  show ?thesis by simp
qed

text \<open>
  The invariant \<open>foundInv\<close> holds when a level starts without a stored record, and
  again when the record the program saved is loaded back.
\<close>

lemma foundInv_setFound_empty: "foundInv (setFound [] [] s)"
  by (simp add: foundInv_def setFound_def)

lemma foundInv_fresh:
  "localStorage s (getFoundWordsStorageKey s) = None \<Longrightarrow> foundInv (loadFoundWords s)"
  by (simp add: loadFoundWords_def foundInv_setFound_empty)

lemma loadFoundWords_saved:
  assumes "localStorage t (getFoundWordsStorageKey t)
      = Some (StoredObject (Some levelFound) (Some otherFound))"
    and "\<forall>word \<in> set levelFound. isLevelWord (currentLevelWords t) (toUpperCase word)"
  shows "loadFoundWords t = setFound levelFound otherFound t"
proof -
  have "filter (\<lambda>word. isLevelWord (currentLevelWords t) (toUpperCase word)) levelFound = levelFound"
    using assms(2) by (simp add: filter_id_conv)
  then show ?thesis
    unfolding loadFoundWords_def assms(1) by simp
qed

lemma isLevelWord_upper:
  "isLevelWord ws word \<Longrightarrow> toUpperCase word = word"
  by (auto simp: isLevelWord_def list_ex_iff toUpperCase_idem)

lemma foundInv_reloaded:
  assumes "foundInv s"
  shows "foundInv (loadFoundWords (saveFoundWords s))"
proof -
  let ?t = "saveFoundWords s"
  have cur: "currentLevelWords ?t = currentLevelWords s"
    and key: "getFoundWordsStorageKey ?t = getFoundWordsStorageKey s"
    by (simp_all add: saveFoundWords_def getFoundWordsStorageKey_def)
  have get: "localStorage ?t (getFoundWordsStorageKey ?t)
      = Some (StoredObject (Some (foundWords s)) (Some (otherFoundWords s)))"
    unfolding key by (simp add: saveFoundWords_def)
  have "\<forall>word \<in> set (foundWords s). isLevelWord (currentLevelWords ?t) (toUpperCase word)"
    using assms isLevelWord_upper unfolding foundInv_def cur by metis
  with get have "loadFoundWords ?t = setFound (foundWords s) (otherFoundWords s) ?t"
    by (rule loadFoundWords_saved)
  with assms show ?thesis
    by (simp add: foundInv_def setFound_def cur)
qed


text \<open>
  Claim C5. In a state where the two sets mirror the two arrays, no array has a
  duplicate, the level array holds level words only and the other array none,
  an accepted word leaves the state so, and afterwards the uppercase word is in exactly
  one array: in the level array if it equals the uppercase of a level word, else in the
  other array. The array it belongs to is unchanged if it held the word already and has
  the word appended at the end otherwise; the other array is unchanged.
\<close>

theorem found_word_partition:
  assumes "foundInv s"
    and "isValidWord d (buildWordFromSelection s)"
    and "length (buildWordFromSelection s) = currentWordLength s"
  shows "foundInv (confirmWord d e s)
     \<and> (if isLevelWord (currentLevelWords s) (toUpperCase (buildWordFromSelection s))
         then foundWords (confirmWord d e s)
                = (if toUpperCase (buildWordFromSelection s) \<in> set (foundWords s)
                   then foundWords s
                   else foundWords s @ [toUpperCase (buildWordFromSelection s)])
            \<and> otherFoundWords (confirmWord d e s) = otherFoundWords s
            \<and> toUpperCase (buildWordFromSelection s) \<in> set (foundWords (confirmWord d e s))
            \<and> toUpperCase (buildWordFromSelection s) \<notin> set (otherFoundWords (confirmWord d e s))
         else otherFoundWords (confirmWord d e s)
                = (if toUpperCase (buildWordFromSelection s) \<in> set (otherFoundWords s)
                   then otherFoundWords s
                   else otherFoundWords s @ [toUpperCase (buildWordFromSelection s)])
            \<and> foundWords (confirmWord d e s) = foundWords s
            \<and> toUpperCase (buildWordFromSelection s) \<in> set (otherFoundWords (confirmWord d e s))
            \<and> toUpperCase (buildWordFromSelection s) \<notin> set (foundWords (confirmWord d e s)))"
proof -
  let ?W = "toUpperCase (buildWordFromSelection s)"
  note acc = confirmWord_accept [OF assms(2,3), of e]
  from assms(1) have inv:
    "foundWordsSet s = set (foundWords s)" "otherFoundWordsSet s = set (otherFoundWords s)"
    "distinct (foundWords s)" "distinct (otherFoundWords s)"
    "\<forall>word \<in> set (foundWords s). isLevelWord (currentLevelWords s) word"
    "\<forall>word \<in> set (otherFoundWords s). \<not> isLevelWord (currentLevelWords s) word"
    by (simp_all add: foundInv_def)
  show ?thesis
  proof (cases "isLevelWord (currentLevelWords s) ?W")
    case True
    with inv(6) have "?W \<notin> set (otherFoundWords s)" by blast
    with True inv show ?thesis
      unfolding foundInv_def acc recordWord_found by auto
  next
    case False
    with inv(5) have "?W \<notin> set (foundWords s)" by blast
    with False inv show ?thesis
      unfolding foundInv_def acc recordWord_found by auto
  qed
qed

theorem found_word_partition_witness:
  "foundInv crane_state
   \<and> isValidWord dict_sample (buildWordFromSelection crane_state)
   \<and> length (buildWordFromSelection crane_state) = currentWordLength crane_state
   \<and> foundWords (confirmWord dict_sample env_daily crane_state) = [''GRAPE'']
   \<and> otherFoundWords (confirmWord dict_sample env_daily crane_state) = []
   \<and> foundInv crate_state
   \<and> isValidWord dict_sample (buildWordFromSelection crate_state)
   \<and> length (buildWordFromSelection crate_state) = currentWordLength crate_state
   \<and> foundWords (confirmWord dict_sample env_daily crate_state) = []
   \<and> otherFoundWords (confirmWord dict_sample env_daily crate_state) = [''CRATE'']"
proof -
  have ev: "foundInv crane_state"
    "isValidWord dict_sample (buildWordFromSelection crane_state)"
    "length (buildWordFromSelection crane_state) = currentWordLength crane_state"
    "foundWords (confirmWord dict_sample env_daily crane_state) = [''GRAPE'']"
    "otherFoundWords (confirmWord dict_sample env_daily crane_state) = []"
    "foundInv crate_state"
    "isValidWord dict_sample (buildWordFromSelection crate_state)"
    "length (buildWordFromSelection crate_state) = currentWordLength crate_state"
    "foundWords (confirmWord dict_sample env_daily crate_state) = []"
    "otherFoundWords (confirmWord dict_sample env_daily crate_state) = [''CRATE'']"
    by code_simp+
  from found_word_partition [of crane_state dict_sample env_daily]
    found_word_partition [of crate_state dict_sample env_daily] ev
  show ?thesis by simp
qed

text \<open>
  Claim C10. Submitting again a valid word of the right length that its array already
  holds (sets mirroring arrays) still adds one to the session counter, still adds
  \<open>COINS_PER_WORD\<close> coins and still removes the selected letters from the grid, as
  many as the word is long; the two found arrays and the two sets stay as they were.
\<close>

theorem resubmitted_word:
  assumes "foundWordsSet s = set (foundWords s)"
    and "otherFoundWordsSet s = set (otherFoundWords s)"
    and "isValidWord d (buildWordFromSelection s)"
    and "length (buildWordFromSelection s) = currentWordLength s"
    and "if isLevelWord (currentLevelWords s) (toUpperCase (buildWordFromSelection s))
         then toUpperCase (buildWordFromSelection s) \<in> set (foundWords s)
         else toUpperCase (buildWordFromSelection s) \<in> set (otherFoundWords s)"
  shows "totalWordsFoundInSession (confirmWord d e s) = totalWordsFoundInSession s + 1
     \<and> coins (confirmWord d e s) = coins s + COINS_PER_WORD
     \<and> letters (confirmWord d e s) = letters (removeUsedLetters s)
     \<and> letterCount (letters (confirmWord d e s)) + length (buildWordFromSelection s)
         = letterCount (letters s)
     \<and> foundWords (confirmWord d e s) = foundWords s
     \<and> otherFoundWords (confirmWord d e s) = otherFoundWords s
     \<and> foundWordsSet (confirmWord d e s) = foundWordsSet s
     \<and> otherFoundWordsSet (confirmWord d e s) = otherFoundWordsSet s"
proof -
  have "letterCount (letters (confirmWord d e s)) + length (buildWordFromSelection s)
         = letterCount (letters s)"
    unfolding confirmWord_accept(3) [OF assms(3,4)] by (rule letterCount_removeUsedLetters)
  moreover have "totalWordsFoundInSession (confirmWord d e s) = totalWordsFoundInSession s + 1
     \<and> coins (confirmWord d e s) = coins s + COINS_PER_WORD
     \<and> letters (confirmWord d e s) = letters (removeUsedLetters s)
     \<and> foundWords (confirmWord d e s) = foundWords s
     \<and> otherFoundWords (confirmWord d e s) = otherFoundWords s
     \<and> foundWordsSet (confirmWord d e s) = foundWordsSet s
     \<and> otherFoundWordsSet (confirmWord d e s) = otherFoundWordsSet s"
    using assms(1,2,5)
    unfolding confirmWord_accept [OF assms(3,4)] recordWord_found
    by (auto split: if_splits)
  ultimately show ?thesis by simp
qed

theorem resubmitted_word_witness:
  "foundWordsSet regrape_state = set (foundWords regrape_state)
   \<and> otherFoundWordsSet regrape_state = set (otherFoundWords regrape_state)
   \<and> isValidWord dict_sample (buildWordFromSelection regrape_state)
   \<and> length (buildWordFromSelection regrape_state) = currentWordLength regrape_state
   \<and> isLevelWord (currentLevelWords regrape_state) (toUpperCase (buildWordFromSelection regrape_state))
   \<and> toUpperCase (buildWordFromSelection regrape_state) \<in> set (foundWords regrape_state)
   \<and> totalWordsFoundInSession (confirmWord dict_sample env_daily regrape_state) = 1
   \<and> coins (confirmWord dict_sample env_daily regrape_state) = 10
   \<and> foundWords (confirmWord dict_sample env_daily regrape_state) = [''GRAPE'']
   \<and> letters (confirmWord dict_sample env_daily regrape_state)
       = [''CPSF'', ''RLTL'', ''AAOA'', ''NTNM'', ''EEEE'']"
proof -
  have ev: "foundWordsSet regrape_state = set (foundWords regrape_state)"
    "otherFoundWordsSet regrape_state = set (otherFoundWords regrape_state)"
    "isValidWord dict_sample (buildWordFromSelection regrape_state)"
    "length (buildWordFromSelection regrape_state) = currentWordLength regrape_state"
    "isLevelWord (currentLevelWords regrape_state) (toUpperCase (buildWordFromSelection regrape_state))"
    "toUpperCase (buildWordFromSelection regrape_state) \<in> set (foundWords regrape_state)"
    "totalWordsFoundInSession (confirmWord dict_sample env_daily regrape_state) = 1"
    "coins (confirmWord dict_sample env_daily regrape_state) = 10"
    "foundWords (confirmWord dict_sample env_daily regrape_state) = [''GRAPE'']"
    "letters (confirmWord dict_sample env_daily regrape_state)
       = [''CPSF'', ''RLTL'', ''AAOA'', ''NTNM'', ''EEEE'']"
    by code_simp+
  from resubmitted_word [of regrape_state dict_sample env_daily] ev
  show ?thesis by simp
qed

end
